theory Spec2Isabelle
  imports Complex_Main "HOL-Library.Sublist" "HOL-Library.Multiset"
begin

section \<open>Strings\<close>

text \<open>
  Python strings are modelled as \<open>string\<close> (a list of 8-bit characters) holding ASCII text.
  \<open>str.lower\<close>, \<open>str.isspace\<close> and the regular expression classes \<open>\d\<close> and \<open>\w\<close> are
  modelled on ASCII; code points beyond ASCII are outside the model.
\<close>

definition lower_char :: "char \<Rightarrow> char" where
  "lower_char c =
     (let n = (of_char c :: nat) in if 65 \<le> n \<and> n \<le> 90 then char_of (n + 32) else c)"

definition lower :: "string \<Rightarrow> string" where
  "lower s = map lower_char s"

text \<open>\<open>q in t\<close> on two strings: \<open>q\<close> occurs in \<open>t\<close> as a contiguous substring.\<close>

fun str_contains :: "string \<Rightarrow> string \<Rightarrow> bool" where
  "str_contains t [] = True"
| "str_contains [] (q # qs) = False"
| "str_contains (c # cs) (q # qs) = (prefix (q # qs) (c # cs) \<or> str_contains cs (q # qs))"














section \<open>The dataset\<close>

text \<open>
  A float as Python sees it: a finite value (every finite double is a rational),
  an infinity or NaN. \<open>NaN\<close> is also pandas' null marker.
\<close>

datatype pyfloat = Finite rat | PosInf | NegInf | NaN

text \<open>
  A cell of a numeric column (\<open>score\<close>, \<open>episodes\<close>) as \<open>read_csv\<close> delivers it: a string
  (when the column holds a non-numeric entry somewhere), an integer or a float.
\<close>

datatype cell = Text string | IntV int | FloatV pyfloat

definition notna :: "cell \<Rightarrow> bool" where
  "notna c = (c \<noteq> FloatV NaN)"

text \<open>
  One row of the data frame. The text columns hold a string or the null marker (\<open>None\<close>).
  A column that the CSV file lacks (\<open>studio\<close>, \<open>score\<close>, \<open>episodes\<close>, \<open>aired\<close> are optional)
  is modelled as null in every row: each use in the source is guarded by
  \<open>'col' in row and pd.notna(row.get('col'))\<close>, or by \<open>col in metadata.columns\<close> and
  \<open>pd.notna(val)\<close>, so a missing column and a null cell take the same branch.
\<close>

record anime =
  title :: "string option"
  genre :: "string option"
  anime_type :: "string option"
  source :: "string option"
  studio :: "string option"
  score :: cell
  episodes :: cell
  aired :: "string option"

section \<open>Numbers in cells\<close>








section \<open>create_tags\<close>













section \<open>The title index\<close>

text \<open>
  A pandas \<open>Series\<close> is an ordered list of (index label, value) pairs; labels may repeat.
\<close>

type_synonym ('k, 'v) series = "('k \<times> 'v) list"

text \<open>
  \<open>Series.drop_duplicates()\<close> (\<open>keep='first'\<close>) drops every entry whose \<^emph>\<open>value\<close> has occurred
  before; the index labels play no part.
\<close>

fun drop_duplicates_from :: "'v list \<Rightarrow> ('k, 'v) series \<Rightarrow> ('k, 'v) series" where
  "drop_duplicates_from seen [] = []"
| "drop_duplicates_from seen ((k, v) # s) =
     (if v \<in> set seen then drop_duplicates_from seen s
      else (k, v) # drop_duplicates_from (v # seen) s)"

definition drop_duplicates :: "('k, 'v) series \<Rightarrow> ('k, 'v) series" where
  "drop_duplicates s = drop_duplicates_from [] s"

text \<open>\<open>pd.Series(df.index, index=labels)\<close>: the row numbers \<open>0..N-1\<close> labelled by \<open>labels\<close>.\<close>

definition index_series :: "'k list \<Rightarrow> ('k, nat) series" where
  "index_series labels = zip labels [0..<length labels]"

definition title_to_index :: "anime list \<Rightarrow> (string option, nat) series" where
  "title_to_index df = drop_duplicates (index_series (map title df))"

definition title_to_index_lower :: "anime list \<Rightarrow> (string option, nat) series" where
  "title_to_index_lower df =
     drop_duplicates (index_series (map (\<lambda>r. map_option lower (title r)) df))"

text \<open>\<open>key in series\<close> tests the index labels.\<close>

definition series_contains :: "('k, 'v) series \<Rightarrow> 'k \<Rightarrow> bool" where
  "series_contains s key = (key \<in> fst ` set s)"

text \<open>
  \<open>series[key]\<close>: a scalar when the label occurs once, a sub-series of all the values
  under that label when it occurs several times, \<open>KeyError\<close> (\<open>None\<close>) when it is absent.
\<close>

datatype 'v lookup = Scalar 'v | Multi "'v list"

definition series_getitem :: "('k, 'v) series \<Rightarrow> 'k \<Rightarrow> 'v lookup option" where
  "series_getitem s key =
     (case map snd (filter (\<lambda>p. fst p = key) s) of
        [] \<Rightarrow> None
      | [v] \<Rightarrow> Some (Scalar v)
      | vs \<Rightarrow> Some (Multi vs))"

section \<open>recommend\<close>

text \<open>Lines 148--153 of \<open>recommend\<close>: \<open>None\<close> is the Python \<open>index = None\<close>.\<close>

definition resolve :: "anime list \<Rightarrow> string \<Rightarrow> nat lookup option" where
  "resolve df t =
     (if series_contains (title_to_index df) (Some t)
      then series_getitem (title_to_index df) (Some t)
      else if series_contains (title_to_index_lower df) (Some (lower t))
      then series_getitem (title_to_index_lower df) (Some (lower t))
      else None)"

text \<open>
  \<open>sim\<close> is the similarity matrix, a parameter of the model: it is the output of
  scikit-learn's \<open>TfidfVectorizer\<close> and \<open>cosine_similarity\<close> on the tag strings, with one
  row and one column per row of the data frame. Its entries are finite doubles, modelled
  by their exact rational values. \<open>list(enumerate(sim[index]))\<close> pairs every row number
  with its score.
\<close>

definition distances :: "anime list \<Rightarrow> (nat \<Rightarrow> nat \<Rightarrow> rat) \<Rightarrow> nat \<Rightarrow> (nat \<times> rat) list" where
  "distances df sim index = map (\<lambda>j. (j, sim index j)) [0..<length df]"

text \<open>
  \<open>distances.sort(reverse=True, key=lambda x: x[1])\<close>: Python's sort is stable, and
  \<open>reverse=True\<close> keeps the original order of elements with equal keys. \<open>sort_key\<close> is
  the stable sort of the library; sorting by the negated score is sorting by descending score.
\<close>

definition sort_reverse :: "(nat \<times> rat) list \<Rightarrow> (nat \<times> rat) list" where
  "sort_reverse ds = sort_key (\<lambda>x. - snd x) ds"

text \<open>
  \<open>round(float(score), 4)\<close>: the nearest multiple of \<open>1/10000\<close>, a tie going to the even
  one (the double nearest to that decimal is modelled by the decimal itself).
\<close>

definition round_half_even :: "rat \<Rightarrow> int" where
  "round_half_even x =
     (let f = \<lfloor>x\<rfloor>; d = x - of_int f
      in if d < 1 / 2 then f else if 1 / 2 < d then f + 1 else if even f then f else f + 1)"

definition round4 :: "rat \<Rightarrow> rat" where
  "round4 x = of_int (round_half_even (x * 10000)) / 10000"

text \<open>
  A recommendation: the dictionary \<open>rec\<close>. Title, genre, type and source are always set,
  to the cell of the row (\<open>None\<close> is the null marker); score, episodes, aired and
  studio are set only when the cell is not null (\<open>None\<close>: the key is not set).
\<close>

record recommendation =
  rec_title :: "string option"
  rec_genre :: "string option"
  rec_type :: "string option"
  rec_source :: "string option"
  rec_similarity :: rat
  rec_score :: "cell option"
  rec_episodes :: "cell option"
  rec_aired :: "string option"
  rec_studio :: "string option"

definition build_rec :: "anime list \<Rightarrow> nat \<times> rat \<Rightarrow> recommendation" where
  "build_rec df p =
     (let r = df ! fst p
      in \<lparr> rec_title = title r, rec_genre = genre r, rec_type = anime_type r,
           rec_source = source r, rec_similarity = round4 (snd p),
           rec_score = (if notna (score r) then Some (score r) else None),
           rec_episodes = (if notna (episodes r) then Some (episodes r) else None),
           rec_aired = aired r, rec_studio = studio r \<rparr>)"

text \<open>
  The loop of \<open>recommend\<close> over the sorted candidates, with its two accumulators: the set
  \<open>seen_titles\<close> and the list of emitted candidates (the source appends the dictionary
  built from the candidate; the model keeps the candidate and builds the dictionaries at
  the end). A null title is the one object \<open>np.nan\<close> in every row, which a Python set
  finds again by identity, so \<open>None\<close> is a title like any other here.
\<close>

fun collect :: "anime list \<Rightarrow> nat \<Rightarrow> int \<Rightarrow> string option set \<Rightarrow> (nat \<times> rat) list \<Rightarrow>
    (nat \<times> rat) list \<Rightarrow> (nat \<times> rat) list" where
  "collect df index top_n seen recs [] = recs"
| "collect df index top_n seen recs ((idx, sc) # rest) =
     (if idx = index then collect df index top_n seen recs rest
      else if title (df ! idx) \<in> seen then collect df index top_n seen recs rest
      else if int (length (recs @ [(idx, sc)])) = top_n then recs @ [(idx, sc)]
      else collect df index top_n (insert (title (df ! idx)) seen) (recs @ [(idx, sc)]) rest)"

definition recommended :: "anime list \<Rightarrow> (nat \<Rightarrow> nat \<Rightarrow> rat) \<Rightarrow> nat \<Rightarrow> int \<Rightarrow> (nat \<times> rat) list" where
  "recommended df sim index top_n =
     collect df index top_n {} [] (sort_reverse (distances df sim index))"

datatype error = ValueError

text \<open>
  When the lookup yields several row numbers, \<open>sim[index]\<close> is a two-dimensional array
  with one row per number, and \<open>distances\<close> pairs positions with whole rows. Sorting it
  compares two of these rows with \<open><\<close>, which gives an array of booleans, one per column;
  there are at least two columns (the lookup found two rows of the data frame), and the
  truth value of such an array raises \<open>ValueError\<close>. (The loop after the sort would
  raise the same error at \<open>if idx == index\<close>, a comparison with the whole series.)
\<close>

definition recommend :: "anime list \<Rightarrow> (nat \<Rightarrow> nat \<Rightarrow> rat) \<Rightarrow> string \<Rightarrow> int \<Rightarrow>
    error + recommendation list" where
  "recommend df sim t top_n =
     (case resolve df t of
        None \<Rightarrow> Inr []
      | Some (Scalar index) \<Rightarrow> Inr (map (build_rec df) (recommended df sim index top_n))
      | Some (Multi indices) \<Rightarrow> Inl ValueError)"

section \<open>search_titles\<close>

text \<open>\<open>df['title'].dropna().values\<close>\<close>

definition dropna_titles :: "anime list \<Rightarrow> string list" where
  "dropna_titles df = concat (map (\<lambda>r. case title r of None \<Rightarrow> [] | Some t \<Rightarrow> [t]) df)"

fun search_loop :: "string \<Rightarrow> int \<Rightarrow> string list \<Rightarrow> string list \<Rightarrow> string list" where
  "search_loop query_lower limit matches [] = matches"
| "search_loop query_lower limit matches (t # ts) =
     (if str_contains (lower t) query_lower
      then (if int (length (matches @ [t])) \<ge> limit then matches @ [t]
            else search_loop query_lower limit (matches @ [t]) ts)
      else search_loop query_lower limit matches ts)"

definition search_titles :: "anime list \<Rightarrow> string \<Rightarrow> int \<Rightarrow> string list" where
  "search_titles df query limit = search_loop (lower query) limit [] (dropna_titles df)"

section \<open>Notions used to state the properties\<close>

text \<open>The positions of \<open>key\<close> in a list, in increasing order.\<close>

definition positions :: "'k list \<Rightarrow> 'k \<Rightarrow> nat list" where
  "positions ls key = filter (\<lambda>i. ls ! i = key) [0..<length ls]"

text \<open>What a label lookup returns for the list of values found under the label.\<close>

definition lookup_of :: "'v list \<Rightarrow> 'v lookup option" where
  "lookup_of vs = (case vs of [] \<Rightarrow> None | [v] \<Rightarrow> Some (Scalar v) | _ \<Rightarrow> Some (Multi vs))"

text \<open>\<open>df['title'].str.lower()\<close>: the lowercased title column, nulls kept.\<close>

definition lower_titles :: "anime list \<Rightarrow> string option list" where
  "lower_titles df = map (\<lambda>r. map_option lower (title r)) df"



text \<open>
  The order of iteration: a higher score first, and the lower row number first among
  equal scores.
\<close>

definition before :: "nat \<times> rat \<Rightarrow> nat \<times> rat \<Rightarrow> bool" where
  "before a b = (snd b < snd a \<or> (snd a = snd b \<and> fst a < fst b))"

text \<open>The title of the row that a candidate stands for.\<close>

definition title_at :: "anime list \<Rightarrow> nat \<times> rat \<Rightarrow> string option" where
  "title_at df p = title (df ! fst p)"

text \<open>The distinct titles among the rows other than \<open>index\<close>.\<close>

definition other_titles :: "anime list \<Rightarrow> nat \<Rightarrow> string option list" where
  "other_titles df index =
     remdups (map (\<lambda>j. title (df ! j)) (filter (\<lambda>j. j \<noteq> index) [0..<length df]))"

section \<open>Example data\<close>

text \<open>A row with a title and nothing else.\<close>

definition titled :: "string \<Rightarrow> anime" where
  "titled t = \<lparr>title = Some t, genre = None, anime_type = None, source = None, studio = None,
     score = FloatV NaN, episodes = FloatV NaN, aired = None\<rparr>"

definition two_rows :: "anime list" where
  "two_rows = [titled ''Naruto'', titled ''One Piece'']"

text \<open>A similarity matrix for the examples: 1 on the diagonal, 0 elsewhere.\<close>

definition unit_sim :: "nat \<Rightarrow> nat \<Rightarrow> rat" where
  "unit_sim i j = (if i = j then 1 else 0)"

text \<open>Five rows, two of them with the title \<open>B\<close>, and the scores of every row against them.\<close>

definition five_rows :: "anime list" where
  "five_rows = [titled ''A'', titled ''B'', titled ''C'', titled ''B'', titled ''D'']"

definition five_sim :: "nat \<Rightarrow> nat \<Rightarrow> rat" where
  "five_sim i j = (if i = j then 1 else if j = 3 \<or> j = 1 then 9 / 10 else if j = 4 then 1 / 2 else 0)"

definition search_rows :: "anime list" where
  "search_rows = [titled ''One Piece'', titled ''OnePunch Man'', titled ''Naruto'',
     titled ''Gone'', titled ''Stone'']"



section \<open>The title index keeps every row\<close>

lemma drop_duplicates_from_distinct:
  "distinct (map snd s) \<Longrightarrow> set (map snd s) \<inter> set seen = {} \<Longrightarrow> drop_duplicates_from seen s = s"
  by (induction seen s rule: drop_duplicates_from.induct) auto

lemma drop_duplicates_index_series: "drop_duplicates (index_series ls) = index_series ls"
  unfolding drop_duplicates_def index_series_def
  by (rule drop_duplicates_from_distinct) simp_all

lemma filter_zip_upt:
  "map snd (filter (\<lambda>p. fst p = key) (zip ls [n..<n + length ls]))
   = map (\<lambda>i. i + n) (filter (\<lambda>i. ls ! i = key) [0..<length ls])"
proof (induction ls arbitrary: n rule: rev_induct)
  case Nil
  then show ?case by simp
next
  case (snoc x xs)
  have "[n..<n + length (xs @ [x])] = [n..<n + length xs] @ [n + length xs]" by simp
  then have z: "zip (xs @ [x]) [n..<n + length (xs @ [x])]
      = zip xs [n..<n + length xs] @ [(x, n + length xs)]"
    by simp
  have f: "filter (\<lambda>i. (xs @ [x]) ! i = key) [0..<length xs]
      = filter (\<lambda>i. xs ! i = key) [0..<length xs]"
    by (rule filter_cong) (auto simp: nth_append)
  show ?case unfolding z using snoc[of n] by (simp add: f)
qed

lemma matches_index_series:
  "map snd (filter (\<lambda>p. fst p = key) (index_series ls)) = positions ls key"
  using filter_zip_upt[of key ls 0] by (simp add: index_series_def positions_def)

lemma series_contains_index_series: "series_contains (index_series ls) key \<longleftrightarrow> key \<in> set ls"
  unfolding series_contains_def index_series_def
  by (metis (no_types) length_upt map_fst_zip minus_nat.diff_0 set_map)

lemma filter_as_positions: "filter (\<lambda>x. x = key) ls = map ((!) ls) (positions ls key)"
proof -
  have "filter (\<lambda>x. x = key) ls = filter (\<lambda>x. x = key) (map ((!) ls) [0..<length ls])"
    by (simp add: map_nth)
  also have "\<dots> = map ((!) ls) (positions ls key)"
    by (simp add: filter_map comp_def positions_def)
  finally show ?thesis .
qed

lemma length_positions: "length (positions ls key) = length (filter (\<lambda>x. x = key) ls)"
  by (simp add: filter_as_positions)

lemma positions_Nil_iff: "positions ls key = [] \<longleftrightarrow> key \<notin> set ls"
proof -
  have "positions ls key = [] \<longleftrightarrow> filter (\<lambda>x. x = key) ls = []"
    using length_positions[of ls key] by (metis length_0_conv)
  then show ?thesis by (auto simp: filter_empty_conv)
qed

lemma series_getitem_index_series:
  "series_getitem (index_series ls) key = lookup_of (positions ls key)"
  by (simp add: series_getitem_def matches_index_series lookup_of_def split: list.splits)

lemma resolve_positions:
  "resolve df t =
     (if Some t \<in> set (map title df) then lookup_of (positions (map title df) (Some t))
      else lookup_of (positions (lower_titles df) (Some (lower t))))"
  unfolding resolve_def title_to_index_def title_to_index_lower_def lower_titles_def[symmetric]
    drop_duplicates_index_series series_contains_index_series series_getitem_index_series
  using positions_Nil_iff[of "lower_titles df" "Some (lower t)"]
  by (auto simp: lookup_of_def)

lemma positions_duplicated:
  assumes "2 \<le> length (filter (\<lambda>x. x = key) ls)"
  shows "lookup_of (positions ls key) = Some (Multi (positions ls key))" and "key \<in> set ls"
proof -
  from assms have l: "2 \<le> length (positions ls key)" by (simp add: length_positions)
  then obtain a b r where "positions ls key = a # b # r"
    by (cases "positions ls key"; cases "tl (positions ls key)") auto
  then show "lookup_of (positions ls key) = Some (Multi (positions ls key))"
    by (simp add: lookup_of_def)
  from l have "positions ls key \<noteq> []" by auto
  then show "key \<in> set ls" by (simp add: positions_Nil_iff)
qed

section \<open>Claims about the title index and the resolution of titles\<close>

text \<open>
  C1. The claim is that both maps are deduplicated, so that a title occurring in several
  rows keeps one row number. The source calls \<open>drop_duplicates()\<close> on the series, which
  compares the values (the row numbers, all different) and not the labels: every entry
  is kept, for every data frame. With the title \<open>A\<close> in rows 0 and 1 both entries remain
  and the lookup returns both row numbers; likewise in the lowercased map for the titles
  \<open>A\<close> and \<open>a\<close>.
\<close>

theorem title_index_keeps_duplicate_titles:
  "title_to_index df = index_series (map title df)
   \<and> title_to_index_lower df = index_series (lower_titles df)
   \<and> title_to_index [titled ''A'', titled ''A''] = [(Some ''A'', 0), (Some ''A'', 1)]
   \<and> series_getitem (title_to_index [titled ''A'', titled ''A'']) (Some ''A'') = Some (Multi [0, 1])
   \<and> title_to_index_lower [titled ''A'', titled ''a''] = [(Some ''a'', 0), (Some ''a'', 1)]
   \<and> series_getitem (title_to_index_lower [titled ''A'', titled ''a'']) (Some ''a'') = Some (Multi [0, 1])"
proof -
  have g1: "title_to_index df = index_series (map title df)"
    by (simp add: title_to_index_def drop_duplicates_index_series)
  have g2: "title_to_index_lower df = index_series (lower_titles df)"
    by (simp add: title_to_index_lower_def drop_duplicates_index_series lower_titles_def)
  have c1: "title_to_index [titled ''A'', titled ''A''] = [(Some ''A'', 0), (Some ''A'', 1)]"
    by code_simp
  have c2: "series_getitem (title_to_index [titled ''A'', titled ''A'']) (Some ''A'')
      = Some (Multi [0, 1])"
    by code_simp
  have c3: "title_to_index_lower [titled ''A'', titled ''a''] = [(Some ''a'', 0), (Some ''a'', 1)]"
    by code_simp
  have c4: "series_getitem (title_to_index_lower [titled ''A'', titled ''a'']) (Some ''a'')
      = Some (Multi [0, 1])"
    by code_simp
  show ?thesis by (intro conjI g1 g2 c1 c2 c3 c4)
qed

text \<open>
  C10. For a title that occurs in two or more rows, the exact lookup yields all of their
  row numbers (at least two), and \<open>recommend\<close> raises instead of returning a list.
\<close>

theorem recommend_duplicate_title_raises:
  assumes "2 \<le> length (filter (\<lambda>r. title r = Some t) df)"
  shows "resolve df t = Some (Multi (positions (map title df) (Some t)))
    \<and> 2 \<le> length (positions (map title df) (Some t))
    \<and> recommend df sim t top_n = Inl ValueError"
proof -
  have "length (filter (\<lambda>x. x = Some t) (map title df)) = length (filter (\<lambda>r. title r = Some t) df)"
    by (simp add: filter_map comp_def)
  with assms have a: "2 \<le> length (filter (\<lambda>x. x = Some t) (map title df))" by simp
  have r: "resolve df t = Some (Multi (positions (map title df) (Some t)))"
    using positions_duplicated[OF a] by (simp add: resolve_positions)
  moreover have "2 \<le> length (positions (map title df) (Some t))"
    using a by (simp add: length_positions)
  moreover have "recommend df sim t top_n = Inl ValueError"
    by (simp add: recommend_def r)
  ultimately show ?thesis by simp
qed

theorem recommend_duplicate_title_raises_witness:
  "2 \<le> length (filter (\<lambda>r. title r = Some ''A'') [titled ''A'', titled ''B'', titled ''A''])
   \<and> resolve [titled ''A'', titled ''B'', titled ''A''] ''A'' = Some (Multi [0, 2])
   \<and> recommend [titled ''A'', titled ''B'', titled ''A''] unit_sim ''A'' 5 = Inl ValueError"
proof -
  have h: "2 \<le> length (filter (\<lambda>r. title r = Some ''A'') [titled ''A'', titled ''B'', titled ''A''])"
    by (simp add: titled_def)
  have p: "positions (map title [titled ''A'', titled ''B'', titled ''A'']) (Some ''A'') = [0, 2]"
    by code_simp
  show ?thesis
    using h recommend_duplicate_title_raises[OF h, of unit_sim 5]
    unfolding p by simp
qed

text \<open>
  C2. \<open>recommend\<close> resolves the title in the exact map when some row has exactly that
  title; otherwise in the lowercased map, under the lowercased input, when some row has
  that lowercased title; and when neither is the case it returns the empty list.
\<close>

theorem recommend_resolution:
  "(Some t \<in> set (map title df) \<longrightarrow>
      resolve df t = series_getitem (title_to_index df) (Some t)
      \<and> resolve df t = lookup_of (positions (map title df) (Some t)))
   \<and> (Some t \<notin> set (map title df) \<and> Some (lower t) \<in> set (lower_titles df) \<longrightarrow>
      resolve df t = series_getitem (title_to_index_lower df) (Some (lower t))
      \<and> resolve df t = lookup_of (positions (lower_titles df) (Some (lower t))))
   \<and> (Some t \<notin> set (map title df) \<and> Some (lower t) \<notin> set (lower_titles df) \<longrightarrow>
      resolve df t = None \<and> recommend df sim t top_n = Inr [])"
proof -
  have c1: "series_contains (title_to_index df) (Some t) \<longleftrightarrow> Some t \<in> set (map title df)"
    by (simp add: title_to_index_def drop_duplicates_index_series series_contains_index_series)
  have c2: "series_contains (title_to_index_lower df) (Some (lower t))
      \<longleftrightarrow> Some (lower t) \<in> set (lower_titles df)"
    by (simp add: title_to_index_lower_def drop_duplicates_index_series
        series_contains_index_series lower_titles_def)
  have g1: "series_getitem (title_to_index df) (Some t) = lookup_of (positions (map title df) (Some t))"
    by (simp add: title_to_index_def drop_duplicates_index_series series_getitem_index_series)
  have g2: "series_getitem (title_to_index_lower df) (Some (lower t))
      = lookup_of (positions (lower_titles df) (Some (lower t)))"
    by (simp add: title_to_index_lower_def drop_duplicates_index_series
        series_getitem_index_series lower_titles_def)
  show ?thesis
    unfolding recommend_def resolve_def c1 c2 g1 g2 by simp
qed

theorem recommend_resolution_witness:
  "Some ''Naruto'' \<in> set (map title two_rows) \<and> resolve two_rows ''Naruto'' = Some (Scalar 0)
   \<and> Some ''ONE PIECE'' \<notin> set (map title two_rows) \<and> Some (lower ''ONE PIECE'') \<in> set (lower_titles two_rows)
   \<and> resolve two_rows ''ONE PIECE'' = Some (Scalar 1)
   \<and> Some ''Bleach'' \<notin> set (map title two_rows) \<and> Some (lower ''Bleach'') \<notin> set (lower_titles two_rows)
   \<and> recommend two_rows unit_sim ''Bleach'' 5 = Inr []"
proof -
  have a: "Some ''Naruto'' \<in> set (map title two_rows)" by code_simp
  have b: "Some ''ONE PIECE'' \<notin> set (map title two_rows) \<and> Some (lower ''ONE PIECE'') \<in> set (lower_titles two_rows)"
    by code_simp
  have c: "Some ''Bleach'' \<notin> set (map title two_rows) \<and> Some (lower ''Bleach'') \<notin> set (lower_titles two_rows)"
    by code_simp
  have pa: "lookup_of (positions (map title two_rows) (Some ''Naruto'')) = Some (Scalar 0)" by code_simp
  have pb: "lookup_of (positions (lower_titles two_rows) (Some (lower ''ONE PIECE''))) = Some (Scalar 1)" by code_simp
  have 1: "resolve two_rows ''Naruto'' = Some (Scalar 0)"
    using a pa recommend_resolution[of "''Naruto''" two_rows unit_sim 5]
    by metis
  have 2: "resolve two_rows ''ONE PIECE'' = Some (Scalar 1)"
    using b pb recommend_resolution[of "''ONE PIECE''" two_rows unit_sim 5]
    by metis
  have 3: "recommend two_rows unit_sim ''Bleach'' 5 = Inr []"
    using c recommend_resolution[of "''Bleach''" two_rows unit_sim 5]
    by metis
  show ?thesis using a b c 1 2 3 by simp
qed

text \<open>
  C8. When a title is stored and no other row has the same lowercased title, \<open>recommend\<close>
  returns for every case variant of the title what it returns for the stored title
  (for every \<open>top_n\<close>).
\<close>

theorem recommend_case_insensitive:
  assumes stored: "Some T \<in> set (map title df)"
    and unamb: "length (filter (\<lambda>x. x = Some (lower T)) (lower_titles df)) = 1"
    and variant: "lower V = lower T"
  shows "recommend df sim V top_n = recommend df sim T top_n"
proof -
  let ?ls = "map title df" and ?ll = "lower_titles df"
  have "length (positions ?ll (Some (lower T))) = 1"
    using unamb by (simp add: length_positions)
  then obtain i where L: "positions ?ll (Some (lower T)) = [i]"
    by (cases "positions ?ll (Some (lower T))") auto
  have sub: "positions ?ls (Some W) = filter (\<lambda>j. ?ls ! j = Some W) [i]" if w: "lower W = lower T" for W
  proof -
    have "positions ?ls (Some W)
        = filter (\<lambda>j. ?ll ! j = Some (lower T) \<and> ?ls ! j = Some W) [0..<length df]"
      unfolding positions_def using w
      by (intro filter_cong) (auto simp: lower_titles_def)
    also have "\<dots> = filter (\<lambda>j. ?ls ! j = Some W) (positions ?ll (Some (lower T)))"
      by (simp add: positions_def lower_titles_def conj_commute)
    finally show ?thesis by (simp only: L)
  qed
  have one: "positions ?ls (Some W) = [i]" if w: "lower W = lower T" and s: "Some W \<in> set ?ls" for W
  proof -
    have "positions ?ls (Some W) \<noteq> []" using s by (simp only: positions_Nil_iff) simp
    then show ?thesis using sub[OF w] by (auto split: if_splits)
  qed
  have rT: "resolve df T = Some (Scalar i)"
    using one[OF refl stored] stored by (simp add: resolve_positions lookup_of_def)
  have rV: "resolve df V = Some (Scalar i)"
  proof (cases "Some V \<in> set ?ls")
    case True
    then show ?thesis using one[OF variant True] by (simp add: resolve_positions lookup_of_def)
  next
    case False
    then show ?thesis using L variant by (simp add: resolve_positions lookup_of_def)
  qed
  show ?thesis by (simp add: recommend_def rT rV)
qed

theorem recommend_case_insensitive_witness:
  "Some ''Naruto'' \<in> set (map title two_rows)
   \<and> length (filter (\<lambda>x. x = Some (lower ''Naruto'')) (lower_titles two_rows)) = 1
   \<and> lower ''NARUTO'' = lower ''Naruto''
   \<and> recommend two_rows unit_sim ''NARUTO'' 5 = recommend two_rows unit_sim ''Naruto'' 5"
proof -
  have h1: "Some ''Naruto'' \<in> set (map title two_rows)" by code_simp
  have h2: "length (filter (\<lambda>x. x = Some (lower ''Naruto'')) (lower_titles two_rows)) = 1"
    by code_simp
  have h3: "lower ''NARUTO'' = lower ''Naruto''" by code_simp
  show ?thesis
    using h1 h2 h3 recommend_case_insensitive[OF h1 h2 h3, of unit_sim 5] by simp
qed

section \<open>The order of iteration\<close>

lemma insort_before:
  "sorted_wrt before ys \<Longrightarrow> \<forall>y\<in>set ys. fst x < fst y
    \<Longrightarrow> sorted_wrt before (insort_key (\<lambda>p. - snd p) x ys)"
  by (induction ys) (auto simp: before_def set_insort_key)

lemma sort_reverse_before:
  "sorted_wrt (\<lambda>a b. fst a < fst b) ds \<Longrightarrow> sorted_wrt before (sort_reverse ds)"
  unfolding sort_reverse_def
  by (induction ds) (auto intro!: insort_before)

lemma distances_by_row: "sorted_wrt (\<lambda>a b. fst a < fst b) (distances df sim index)"
  by (simp add: distances_def sorted_wrt_map)

lemma collect_subseq:
  "\<exists>ys. collect df index top_n seen recs cands = recs @ ys \<and> subseq ys cands"
proof (induction cands arbitrary: seen recs)
  case Nil
  then show ?case by simp
next
  case (Cons c cands)
  obtain idx sc where c: "c = (idx, sc)" by (cases c)
  note ih = Cons.IH
  consider (self) "idx = index"
    | (dup) "idx \<noteq> index" "title (df ! idx) \<in> seen"
    | (full) "idx \<noteq> index" "title (df ! idx) \<notin> seen" "int (length (recs @ [(idx, sc)])) = top_n"
    | (more) "idx \<noteq> index" "title (df ! idx) \<notin> seen" "int (length (recs @ [(idx, sc)])) \<noteq> top_n"
    by blast
  then show ?case
  proof cases
    case self
    then show ?thesis using ih[of seen recs] by (auto simp: c)
  next
    case dup
    then show ?thesis using ih[of seen recs] by (auto simp: c)
  next
    case full
    then have "collect df index top_n seen recs (c # cands) = recs @ [c]" by (simp add: c)
    moreover have "subseq [c] (c # cands)" by simp
    ultimately show ?thesis by blast
  next
    case more
    obtain ys where "collect df index top_n (insert (title (df ! idx)) seen) (recs @ [c]) cands
        = (recs @ [c]) @ ys" "subseq ys cands"
      using ih[of "insert (title (df ! idx)) seen" "recs @ [c]"] by blast
    then have "collect df index top_n seen recs (c # cands) = recs @ (c # ys)" "subseq (c # ys) (c # cands)"
      using more by (simp_all add: c)
    then show ?thesis by blast
  qed
qed

lemma sorted_wrt_subseq: "subseq xs ys \<Longrightarrow> sorted_wrt P ys \<Longrightarrow> sorted_wrt P xs"
  by (induction rule: list_emb.induct) (auto dest: list_emb_set)

text \<open>
  C7. The candidates are iterated in the order of the sorted list, which is a permutation
  of the scores of all rows in which a higher score comes first and, among equal scores,
  the lower row number comes first; the emitted candidates are a subsequence of it, in
  the same order.
\<close>

theorem recommend_order:
  "sorted_wrt before (sort_reverse (distances df sim index))
   \<and> mset (sort_reverse (distances df sim index)) = mset (distances df sim index)
   \<and> subseq (recommended df sim index top_n) (sort_reverse (distances df sim index))
   \<and> sorted_wrt before (recommended df sim index top_n)"
proof -
  have s: "sorted_wrt before (sort_reverse (distances df sim index))"
    by (rule sort_reverse_before[OF distances_by_row])
  have m: "mset (sort_reverse (distances df sim index)) = mset (distances df sim index)"
    by (simp add: sort_reverse_def)
  have q: "subseq (recommended df sim index top_n) (sort_reverse (distances df sim index))"
    using collect_subseq[of df index top_n "{}" "[]" "sort_reverse (distances df sim index)"]
    by (auto simp: recommended_def)
  have "sorted_wrt before (recommended df sim index top_n)"
    using sorted_wrt_subseq[OF q s] .
  with s m q show ?thesis by simp
qed

section \<open>The loop of recommend\<close>

lemma collect_spec:
  assumes "int (length recs) < top_n" "seen = title_at df ` set recs"
    "distinct (map (title_at df) recs)" "index \<notin> fst ` set recs"
  shows "int (length (collect df index top_n seen recs cands)) \<le> top_n
    \<and> distinct (map (title_at df) (collect df index top_n seen recs cands))
    \<and> index \<notin> fst ` set (collect df index top_n seen recs cands)
    \<and> (int (length (collect df index top_n seen recs cands)) < top_n \<longrightarrow>
          title_at df ` set (collect df index top_n seen recs cands)
          = seen \<union> title_at df ` {c \<in> set cands. fst c \<noteq> index})"
  using assms
proof (induction cands arbitrary: seen recs)
  case Nil
  then show ?case by simp
next
  case (Cons c cands)
  obtain idx sc where c: "c = (idx, sc)" by (cases c)
  consider (self) "idx = index"
    | (dup) "idx \<noteq> index" "title (df ! idx) \<in> seen"
    | (full) "idx \<noteq> index" "title (df ! idx) \<notin> seen" "int (length (recs @ [(idx, sc)])) = top_n"
    | (more) "idx \<noteq> index" "title (df ! idx) \<notin> seen" "int (length (recs @ [(idx, sc)])) \<noteq> top_n"
    by blast
  then show ?case
  proof cases
    case self
    have e: "{x \<in> set (c # cands). fst x \<noteq> index} = {x \<in> set cands. fst x \<noteq> index}"
      using self by (auto simp: c)
    have "collect df index top_n seen recs (c # cands) = collect df index top_n seen recs cands"
      using self by (simp add: c)
    then show ?thesis using Cons.IH[OF Cons.prems] unfolding e by simp
  next
    case dup
    have e: "seen \<union> title_at df ` {x \<in> set (c # cands). fst x \<noteq> index}
        = seen \<union> title_at df ` {x \<in> set cands. fst x \<noteq> index}"
      using dup by (auto simp: c title_at_def)
    have "collect df index top_n seen recs (c # cands) = collect df index top_n seen recs cands"
      using dup by (simp add: c)
    then show ?thesis using Cons.IH[OF Cons.prems] unfolding e by simp
  next
    case full
    then have "collect df index top_n seen recs (c # cands) = recs @ [c]" by (simp add: c)
    then show ?thesis using full Cons.prems by (auto simp: c title_at_def)
  next
    case more
    let ?seen = "insert (title (df ! idx)) seen" and ?recs = "recs @ [c]"
    have p1: "int (length ?recs) < top_n" using more Cons.prems(1) by simp
    have tc: "title_at df c = title (df ! idx)" by (simp add: c title_at_def)
    have p2: "?seen = title_at df ` set ?recs" using Cons.prems(2) tc by auto
    have p3: "distinct (map (title_at df) ?recs)"
      using Cons.prems(2,3) more tc by auto
    have p4: "index \<notin> fst ` set ?recs" using Cons.prems(4) more by (auto simp: c)
    have e: "?seen \<union> title_at df ` {x \<in> set cands. fst x \<noteq> index}
        = seen \<union> title_at df ` {x \<in> set (c # cands). fst x \<noteq> index}"
    proof -
      have "{x \<in> set (c # cands). fst x \<noteq> index} = insert c {x \<in> set cands. fst x \<noteq> index}"
        using more by (auto simp: c)
      then show ?thesis by (simp add: tc)
    qed
    have "collect df index top_n seen recs (c # cands) = collect df index top_n ?seen ?recs cands"
      using more by (simp add: c)
    then show ?thesis using Cons.IH[OF p1 p2 p3 p4] unfolding e by simp
  qed
qed

lemma subseq_subset: "subseq xs ys \<Longrightarrow> set xs \<subseteq> set ys"
  by (auto elim: list_emb_set)

lemma set_sort_reverse: "set (sort_reverse ds) = set ds"
  by (simp add: sort_reverse_def)

lemma candidates_titles:
  "title_at df ` {c \<in> set (distances df sim index). fst c \<noteq> index} = set (other_titles df index)"
proof -
  have "{c \<in> set (distances df sim index). fst c \<noteq> index}
      = (\<lambda>j. (j, sim index j)) ` {j \<in> {0..<length df}. j \<noteq> index}"
    by (auto simp: distances_def)
  then show ?thesis
    by (simp add: other_titles_def title_at_def image_image)
qed

lemma resolve_in_range:
  assumes "resolve df t = Some (Scalar index)"
  shows "index < length df"
proof -
  have "\<And>ls key. lookup_of (positions ls (key::string option)) = Some (Scalar index) \<Longrightarrow> index < length ls"
  proof -
    fix ls and key :: "string option"
    assume "lookup_of (positions ls key) = Some (Scalar index)"
    then have "positions ls key = [index]"
      by (auto simp: lookup_of_def split: list.splits)
    then have "index \<in> set (positions ls key)" by simp
    then show "index < length ls" by (simp add: positions_def)
  qed
  from this[of "map title df"] this[of "lower_titles df"] assms show ?thesis
    by (auto simp: resolve_positions lower_titles_def split: if_splits)
qed

text \<open>
  C3. When the title resolves to one row and \<open>top_n\<close> is positive, \<open>recommend\<close> returns
  the records of the emitted candidates; the resolved row is not among them, they are
  rows of the data frame, no two records have the same title, there are at most \<open>top_n\<close>
  of them, and there are fewer than \<open>top_n\<close> only if the rows other than the resolved one
  have fewer than \<open>top_n\<close> distinct titles.
\<close>

theorem recommend_output:
  assumes "resolve df t = Some (Scalar index)" and "0 < top_n"
  shows "recommend df sim t top_n = Inr (map (build_rec df) (recommended df sim index top_n))
    \<and> index \<notin> fst ` set (recommended df sim index top_n)
    \<and> fst ` set (recommended df sim index top_n) \<subseteq> {0..<length df}
    \<and> distinct (map rec_title (map (build_rec df) (recommended df sim index top_n)))
    \<and> int (length (map (build_rec df) (recommended df sim index top_n))) \<le> top_n
    \<and> (int (length (map (build_rec df) (recommended df sim index top_n))) < top_n
        \<longrightarrow> int (length (other_titles df index)) < top_n)"
proof -
  let ?out = "recommended df sim index top_n"
  have spec: "int (length ?out) \<le> top_n \<and> distinct (map (title_at df) ?out)
      \<and> index \<notin> fst ` set ?out
      \<and> (int (length ?out) < top_n \<longrightarrow> title_at df ` set ?out = set (other_titles df index))"
    using collect_spec[of "[]" top_n "{}" df index "sort_reverse (distances df sim index)"] assms(2)
    by (simp add: recommended_def set_sort_reverse candidates_titles)
  have r: "recommend df sim t top_n = Inr (map (build_rec df) ?out)"
    by (simp add: recommend_def assms(1))
  have t: "map rec_title (map (build_rec df) ?out) = map (title_at df) ?out"
    by (simp add: build_rec_def title_at_def Let_def)
  have "subseq ?out (sort_reverse (distances df sim index))"
    using collect_subseq[of df index top_n "{}" "[]" "sort_reverse (distances df sim index)"]
    by (auto simp: recommended_def)
  then have "set ?out \<subseteq> set (distances df sim index)"
    using subseq_subset[of ?out "sort_reverse (distances df sim index)"] by (simp add: set_sort_reverse)
  then have rng: "fst ` set ?out \<subseteq> {0..<length df}"
    by (auto simp: distances_def)
  have few: "int (length (other_titles df index)) < top_n" if l: "int (length ?out) < top_n"
  proof -
    from spec l have "title_at df ` set ?out = set (other_titles df index)" by simp
    then have "card (set (map (title_at df) ?out)) = card (set (other_titles df index))" by simp
    moreover have "card (set (map (title_at df) ?out)) = length ?out"
      using spec by (metis distinct_card length_map)
    moreover have "card (set (other_titles df index)) = length (other_titles df index)"
      unfolding other_titles_def by (rule distinct_card) (rule distinct_remdups)
    ultimately show ?thesis using l by simp
  qed
  show ?thesis unfolding t using spec r rng few by simp
qed

theorem recommend_output_witness:
  "resolve five_rows ''a'' = Some (Scalar 0) \<and> (0::int) < 2 \<and> (0::int) < 9
   \<and> recommended five_rows five_sim 0 2 = [(1, 9 / 10), (4, 1 / 2)]
   \<and> recommend five_rows five_sim ''a'' 2 = Inr (map (build_rec five_rows) [(1, 9 / 10), (4, 1 / 2)])
   \<and> int (length (map (build_rec five_rows) (recommended five_rows five_sim 0 9))) < 9
   \<and> int (length (other_titles five_rows 0)) < 9"
proof -
  have h1: "resolve five_rows ''a'' = Some (Scalar 0)" by code_simp
  have h2: "(0::int) < 2" and h3: "(0::int) < 9" by simp_all
  have e: "recommended five_rows five_sim 0 2 = [(1, 9 / 10), (4, 1 / 2)]" by code_simp
  have l: "int (length (map (build_rec five_rows) (recommended five_rows five_sim 0 9))) < 9"
    by code_simp
  have "recommend five_rows five_sim ''a'' 2 = Inr (map (build_rec five_rows) [(1, 9 / 10), (4, 1 / 2)])"
    using recommend_output[OF h1 h2, of five_sim] by (simp only: e)
  moreover have "int (length (other_titles five_rows 0)) < 9"
    using recommend_output[OF h1 h3, of five_sim] l by blast
  ultimately show ?thesis using h1 e l by simp
qed

section \<open>search_titles\<close>

lemma str_contains_sublist: "str_contains t q \<longleftrightarrow> sublist q t"
  by (induction t q rule: str_contains.induct) (simp_all add: sublist_Cons_right)

lemma search_loop_take:
  "int (length matches) < limit \<Longrightarrow>
   search_loop q limit matches ts
   = matches @ take (nat limit - length matches) (filter (\<lambda>t. str_contains (lower t) q) ts)"
proof (induction ts arbitrary: matches)
  case Nil
  then show ?case by simp
next
  case (Cons t ts)
  show ?case
  proof (cases "str_contains (lower t) q")
    case False
    then show ?thesis using Cons by simp
  next
    case True
    from Cons.prems obtain k where k: "nat limit - length matches = Suc k"
      by (cases "nat limit - length matches") auto
    show ?thesis
    proof (cases "int (length (matches @ [t])) \<ge> limit")
      case full: True
      with Cons.prems k have "k = 0" by auto
      then show ?thesis using True full k by simp
    next
      case more: False
      then have "int (length (matches @ [t])) < limit" by simp
      from Cons.IH[OF this] have "search_loop q limit (matches @ [t]) ts
          = (matches @ [t]) @ take (nat limit - length (matches @ [t])) (filter (\<lambda>t. str_contains (lower t) q) ts)" .
      moreover have "nat limit - length (matches @ [t]) = k" using k by simp
      ultimately show ?thesis using True more k by simp
    qed
  qed
qed

lemma set_dropna_titles: "set (dropna_titles df) = {t. Some t \<in> set (map title df)}"
  by (auto simp: dropna_titles_def split: option.splits)

text \<open>
  C9. For a positive limit, \<open>search_titles\<close> returns the first \<open>limit\<close> of the non-null
  titles, in the order of the data frame, whose lowercased text contains the lowercased
  query as a substring: at most \<open>limit\<close> titles, a subsequence of the title column, each
  a title of the data frame that contains the query, and none of the matching titles
  before the cutoff is left out.
\<close>

theorem search_titles_result:
  assumes "0 < limit"
  shows "search_titles df query limit
      = take (nat limit) (filter (\<lambda>t. sublist (lower query) (lower t)) (dropna_titles df))
    \<and> int (length (search_titles df query limit)) \<le> limit
    \<and> subseq (search_titles df query limit) (dropna_titles df)
    \<and> (\<forall>t \<in> set (search_titles df query limit).
          Some t \<in> set (map title df) \<and> sublist (lower query) (lower t))"
proof -
  let ?f = "filter (\<lambda>t. sublist (lower query) (lower t)) (dropna_titles df)"
  have "search_loop (lower query) limit [] (dropna_titles df)
      = [] @ take (nat limit - length ([]::string list))
          (filter (\<lambda>t. str_contains (lower t) (lower query)) (dropna_titles df))"
    using assms by (intro search_loop_take) simp
  then have e: "search_titles df query limit = take (nat limit) ?f"
    by (simp add: search_titles_def str_contains_sublist)
  have l: "int (length (take (nat limit) ?f)) \<le> limit" using assms by simp
  have "subseq (take (nat limit) ?f) ?f"
    by (rule prefix_imp_subseq) (rule take_is_prefix)
  moreover have "subseq ?f (dropna_titles df)"
    by (rule subseq_filter_left)
  ultimately have s: "subseq (take (nat limit) ?f) (dropna_titles df)"
    by (rule subseq_order.order_trans)
  have m: "\<forall>t \<in> set (take (nat limit) ?f). Some t \<in> set (map title df) \<and> sublist (lower query) (lower t)"
  proof
    fix t assume "t \<in> set (take (nat limit) ?f)"
    then have "t \<in> set ?f" by (rule in_set_takeD)
    then have "t \<in> set (dropna_titles df)" and q: "sublist (lower query) (lower t)" by simp_all
    then have "Some t \<in> set (map title df)" unfolding set_dropna_titles by blast
    with q show "Some t \<in> set (map title df) \<and> sublist (lower query) (lower t)" by blast
  qed
  show ?thesis unfolding e using l s m by blast
qed

theorem search_titles_result_witness:
  "(0::int) < 3 \<and> search_titles search_rows ''ONE'' 3 = [''One Piece'', ''OnePunch Man'', ''Gone'']
   \<and> int (length [''One Piece'', ''OnePunch Man'', ''Gone'']) \<le> 3
   \<and> subseq [''One Piece'', ''OnePunch Man'', ''Gone''] (dropna_titles search_rows)
   \<and> Some ''One Piece'' \<in> set (map title search_rows)
   \<and> sublist (lower ''ONE'') (lower ''One Piece'')
   \<and> Some ''OnePunch Man'' \<in> set (map title search_rows)
   \<and> sublist (lower ''ONE'') (lower ''OnePunch Man'')
   \<and> Some ''Gone'' \<in> set (map title search_rows)
   \<and> sublist (lower ''ONE'') (lower ''Gone'')"
proof -
  have h: "(0::int) < 3" by simp
  have v: "search_titles search_rows ''ONE'' 3 = [''One Piece'', ''OnePunch Man'', ''Gone'']"
    by code_simp
  note r = search_titles_result[OF h, of search_rows "''ONE''", unfolded v]
  from r have 1: "int (length [''One Piece'', ''OnePunch Man'', ''Gone'']) \<le> 3" by blast
  from r have 2: "subseq [''One Piece'', ''OnePunch Man'', ''Gone''] (dropna_titles search_rows)"
    by blast
  from r have 3: "\<forall>t \<in> set [''One Piece'', ''OnePunch Man'', ''Gone''].
      Some t \<in> set (map title search_rows) \<and> sublist (lower ''ONE'') (lower t)"
    by blast
  show ?thesis using h v 1 2 3 by simp
qed

section \<open>The tag string\<close>












end
